theory Spec2Isabelle
  imports Main
begin

section \<open>Constants of FullIATestingPage.tsx\<close>

definition POLL_INTERVAL :: nat where
  "POLL_INTERVAL = 1500"

definition POLL_INTERVAL_ERROR :: nat where
  "POLL_INTERVAL_ERROR = 5000"

definition TOAST_DURATION :: nat where
  "TOAST_DURATION = 5000"

definition MAX_TOASTS :: nat where
  "MAX_TOASTS = 5"

section \<open>JavaScript helpers\<close>

text \<open>
  A value of type \<open>string | null\<close> is a \<open>string option\<close>. JavaScript's truthiness test
  on it (\<^verbatim>\<open>if (!agentId)\<close>, \<^verbatim>\<open>prev && ...\<close>) fails for \<^verbatim>\<open>null\<close> and for the empty string.
\<close>

fun truthy :: "string option \<Rightarrow> bool" where
  "truthy None = False"
| "truthy (Some s) = (s \<noteq> [])"

text \<open>
  \<^verbatim>\<open>xs.slice(start)\<close> with one argument: a negative start counts from the end and is
  clamped at the front of the array, a positive one is clamped at its end.
\<close>

definition slice :: "int \<Rightarrow> 'a list \<Rightarrow> 'a list" where
  "slice start xs =
     (let len = int (length xs);
          k = (if start < 0 then max (len + start) 0 else min start len)
      in drop (nat k) xs)"

text \<open>
  \<^verbatim>\<open>new Set(xs)\<close> keeps the first occurrence of every element, in insertion order; the
  model of a \<^verbatim>\<open>Set<string>\<close> is the duplicate-free list of its elements in that order.
\<close>

fun newSet :: "'a list \<Rightarrow> 'a list" where
  "newSet [] = []"
| "newSet (x # xs) = x # filter (\<lambda>y. y \<noteq> x) (newSet xs)"

section \<open>Toasts\<close>

record toast =
  t_id :: string
  t_message :: string
  t_severity :: string
  t_timestamp :: int

text \<open>
  \<^verbatim>\<open>addToast(message, severity)\<close>: the state updater
  \<^verbatim>\<open>prev => [...prev.slice(-(MAX_TOASTS - 1)), { id, message, severity, timestamp }]\<close>.
  The identifier (built from \<^verbatim>\<open>Date.now()\<close> and \<^verbatim>\<open>Math.random()\<close>) and the timestamp are
  inputs of the model.
\<close>

definition addToast :: "string \<Rightarrow> int \<Rightarrow> string \<Rightarrow> string \<Rightarrow> toast list \<Rightarrow> toast list" where
  "addToast i ts message severity prev =
     slice (- (int MAX_TOASTS - 1)) prev
       @ [\<lparr>t_id = i, t_message = message, t_severity = severity, t_timestamp = ts\<rparr>]"

text \<open>
  \<^verbatim>\<open>dismissToast(id)\<close>, which is also what the timer armed by \<^verbatim>\<open>addToast\<close> runs after
  \<^verbatim>\<open>TOAST_DURATION\<close>: \<^verbatim>\<open>prev => prev.filter(t => t.id !== id)\<close>.
\<close>

definition dismissToast :: "string \<Rightarrow> toast list \<Rightarrow> toast list" where
  "dismissToast i prev = filter (\<lambda>t. t_id t \<noteq> i) prev"

text \<open>A request to push a toast: identifier, timestamp, message, severity.\<close>

type_synonym push = "string \<times> int \<times> string \<times> string"

definition pushToast :: "push \<Rightarrow> toast list \<Rightarrow> toast list" where
  "pushToast p prev = (case p of (i, ts, message, severity) \<Rightarrow> addToast i ts message severity prev)"


text \<open>
  \<^verbatim>\<open>s.trim()\<close> removes white space and line terminators at both ends. A \<open>char\<close> is a
  code unit below 256; among those the characters removed are tab, line feed, vertical
  tab, form feed, carriage return, space and the no-break space.
\<close>

definition isWhiteSpace :: "char \<Rightarrow> bool" where
  "isWhiteSpace c = ((of_char c :: nat) \<in> {9, 10, 11, 12, 13, 32, 160})"

definition trim :: "string \<Rightarrow> string" where
  "trim s = rev (dropWhile isWhiteSpace (rev (dropWhile isWhiteSpace s)))"

text \<open>\<^verbatim>\<open>s.toUpperCase()\<close>, on the letters a to z (the severities are ASCII words).\<close>

definition toUpperCase :: "string \<Rightarrow> string" where
  "toUpperCase s =
     map (\<lambda>c. let n = (of_char c :: nat) in if 97 \<le> n \<and> n \<le> 122 then char_of (n - 32) else c) s"

text \<open>A count as a template literal prints it: its decimal digits.\<close>

definition digit :: "nat \<Rightarrow> char" where
  "digit d = ''0123456789'' ! d"

fun decimal :: "nat \<Rightarrow> string" where
  "decimal n = (if 10 \<le> n then decimal (n div 10) @ [digit (n mod 10)] else [digit n])"

text \<open>\<^verbatim>\<open>a || b\<close> on optional strings: the first operand when it is truthy.\<close>

definition orElse :: "string option \<Rightarrow> string option \<Rightarrow> string option" where
  "orElse a b = (if truthy a then a else b)"

text \<open>\<^verbatim>\<open>s || undefined\<close> on a string of the form.\<close>

definition orUndefined :: "string \<Rightarrow> string option" where
  "orUndefined s = (if s = [] then None else Some s)"

text \<open>
  The settled value of an awaited request whose error the page ignores: the promise was
  rejected (the \<^verbatim>\<open>catch\<close> branch runs) or resolved with a value.
\<close>

datatype 'a outcome = Rejected | Resolved 'a

section \<open>Data of the agent service\<close>

text \<open>
  Modelled from the spec: the types \<^verbatim>\<open>AgentFinding\<close>, \<^verbatim>\<open>AgentLog\<close> and \<^verbatim>\<open>AgentStatus\<close>
  are declared in \<^verbatim>\<open>../types\<close>, which is not among the sources. The records carry the
  fields the page reads in its handlers and effects; the other fields of a snapshot are
  only passed through to the presentation. A timestamp is the number of milliseconds that
  \<^verbatim>\<open>new Date(...).getTime()\<close> gives for it, \<open>None\<close> when the field is absent or empty.
\<close>

record agent_finding =
  f_id :: string
  f_severity :: string
  f_title :: string

record agent_log =
  l_message :: string
  l_level :: string
  l_source :: string

record agent_status =
  s_status :: string
  s_phase :: "string option"
  s_started_at :: "int option"
  s_completed_at :: "int option"
  s_findings :: "agent_finding list option"
  s_findings_count :: nat

text \<open>The session record kept in local storage under \<^verbatim>\<open>SESSION_KEY\<close>.\<close>

record session =
  sess_agentId :: string
  sess_target :: string
  sess_startedAt :: int
  sess_status :: string

text \<open>
  What \<^verbatim>\<open>JSON.parse\<close> makes of the stored text: it throws or gives no record
  (\<open>Malformed\<close>), or it gives a session record.
\<close>

datatype stored = Malformed | Saved session

text \<open>The requests the page sends to the agent service.\<close>

record start_options =
  o_mode :: string
  o_prompt :: string
  o_enable_kali_sandbox :: bool
  o_auth_type :: "string option"
  o_auth_value :: "string option"
  o_preferred_provider :: "string option"
  o_preferred_model :: "string option"

datatype api_call =
    AutoPentest string start_options
  | GetStatus string
  | GetLogs string nat
  | StopAgent string

text \<open>
  What the \<^verbatim>\<open>catch\<close> of \<^verbatim>\<open>handleStart\<close> reads from a rejected start request:
  \<^verbatim>\<open>err.response.status\<close>, \<^verbatim>\<open>err.response.data.detail\<close> and \<^verbatim>\<open>err.message\<close>.
\<close>

record start_error =
  e_status :: "nat option"
  e_detail :: "string option"
  e_message :: "string option"

section \<open>The state of the page\<close>

datatype tab = Findings | Logs

text \<open>
  \<^verbatim>\<open>poll\<close> is a function created by a run of the polling effect: it reads the
  \<^verbatim>\<open>agentId\<close> and the \<^verbatim>\<open>connectionLost\<close> of the render that created it, whatever the
  state has become when one of its requests settles. A \<open>closure\<close> holds the two captured
  values; a \<open>timer\<close> is an interval timer with its period in milliseconds and the
  \<^verbatim>\<open>poll\<close> it calls.
\<close>

record closure =
  c_agentId :: string
  c_connectionLost :: bool

record timer =
  tm_period :: nat
  tm_closure :: closure

text \<open>
  The \<^verbatim>\<open>useState\<close> cells and \<^verbatim>\<open>useRef\<close> cells of \<^verbatim>\<open>FullIATestingPage\<close> that its handlers
  and effects use, under the names of the source (\<open>seenFindingIds\<close> is
  \<^verbatim>\<open>seenFindingIdsRef.current\<close>, and so on), together with
  \<^item> \<open>pollTimer\<close>: the interval timer that \<^verbatim>\<open>pollRef.current\<close> designates; \<open>None\<close> when
    no timer is armed (never set, or cleared by the cleanup of the polling effect);
  \<^item> \<open>statusRequests\<close>, \<open>logRequests\<close>: the status and log requests that have been issued
    and have not settled yet, each with the closure of the \<^verbatim>\<open>poll\<close> that awaits it;
  \<^item> \<open>storage\<close>: the entry of \<^verbatim>\<open>localStorage\<close> under \<^verbatim>\<open>SESSION_KEY\<close>;
  \<^item> \<open>sent\<close>: the requests issued so far, oldest first.
\<close>

record page =
  target :: string
  authType :: string
  authValue :: string
  selectedProvider :: string
  selectedModel :: string
  promptContent :: "string option"
  agentId :: "string option"
  status :: "agent_status option"
  isRunning :: bool
  logs :: "agent_log list"
  error :: "string option"
  elapsedSeconds :: int
  activeTab :: tab
  toasts :: "toast list"
  newFindingIds :: "string list"
  connectionLost :: bool
  reportId :: "string option"
  pollTimer :: "timer option"
  seenFindingIds :: "string list"
  prevPhase :: "string option"
  prevStatus :: "string option"
  consecutiveErrors :: nat
  statusRequests :: "closure list"
  logRequests :: "closure list"
  storage :: "stored option"
  sent :: "api_call list"

text \<open>The initial values of the cells, over a given content of local storage.\<close>

definition initial :: "stored option \<Rightarrow> page" where
  "initial stg =
     \<lparr>target = [], authType = [], authValue = [], selectedProvider = [], selectedModel = [],
      promptContent = None, agentId = None, status = None, isRunning = False, logs = [],
      error = None, elapsedSeconds = 0, activeTab = Findings, toasts = [],
      newFindingIds = [], connectionLost = False, reportId = None, pollTimer = None,
      seenFindingIds = [], prevPhase = None, prevStatus = None, consecutiveErrors = 0,
      statusRequests = [], logRequests = [], storage = stg, sent = []\<rparr>"

definition issue :: "api_call \<Rightarrow> page \<Rightarrow> page" where
  "issue c st = st\<lparr>sent := sent st @ [c]\<rparr>"

text \<open>The period of the armed timer, if there is one.\<close>

definition pollPeriod :: "page \<Rightarrow> nat option" where
  "pollPeriod st = map_option tm_period (pollTimer st)"

section \<open>Elapsed time\<close>

text \<open>
  The body of the elapsed-time effect and of its 1-second \<^verbatim>\<open>tick\<close>, from the start time,
  the optional completion time, the running flag and \<^verbatim>\<open>Date.now()\<close>, all in
  milliseconds. \<^verbatim>\<open>Math.floor(x / 1000)\<close> on an integer is \<open>div\<close>, which rounds down.
\<close>

definition elapsed :: "int \<Rightarrow> int option \<Rightarrow> bool \<Rightarrow> int \<Rightarrow> int" where
  "elapsed startTime completed running now =
     (if running then (now - startTime) div 1000
      else
        let endTime = (case completed of Some c \<Rightarrow> c | None \<Rightarrow> now)
        in max 0 ((endTime - startTime) div 1000))"

definition elapsedEffect :: "int \<Rightarrow> page \<Rightarrow> page" where
  "elapsedEffect now st =
     (case status st of
        None \<Rightarrow> st
      | Some s \<Rightarrow>
          (case s_started_at s of
             None \<Rightarrow> st
           | Some startTime \<Rightarrow>
               st\<lparr>elapsedSeconds := elapsed startTime (s_completed_at s) (isRunning st) now\<rparr>))"

section \<open>One poll cycle\<close>

text \<open>A notification is a message with a severity; \<open>stamped\<close> gives the k-th one of a
  cycle the identifier and the timestamp that \<^verbatim>\<open>addToast\<close> draws for it.\<close>

type_synonym notification = "string \<times> string"

definition stamped :: "(nat \<Rightarrow> string \<times> int) \<Rightarrow> notification list \<Rightarrow> push list" where
  "stamped stamp ns = map (\<lambda>(k, (m, sv)). (fst (stamp k), snd (stamp k), m, sv)) (enumerate 0 ns)"

text \<open>Phase change detection.\<close>

definition phaseToast :: "string option \<Rightarrow> agent_status \<Rightarrow> notification list" where
  "phaseToast prev s =
     (case s_phase s of
        None \<Rightarrow> []
      | Some ph \<Rightarrow>
          if truthy prev \<and> ph \<noteq> [] \<and> Some ph \<noteq> prev then [(''Phase: '' @ ph, ''info'')] else [])"

text \<open>Status transition detection.\<close>

definition statusToast :: "string option \<Rightarrow> agent_status \<Rightarrow> notification list" where
  "statusToast prev s =
     (if prev = Some ''running'' \<and> s_status s = ''completed''
        then [(''Pentest complete! '' @ decimal (s_findings_count s) @ '' findings'', ''completed'')]
      else if prev = Some ''running'' \<and> s_status s = ''error''
        then [(''Pentest failed'', ''error'')]
      else if prev = Some ''running'' \<and> s_status s = ''stopped''
        then [(''Pentest stopped'', ''info'')]
      else [])"

text \<open>New finding detection.\<close>

definition findingsOf :: "agent_status \<Rightarrow> agent_finding list" where
  "findingsOf s = (case s_findings s of None \<Rightarrow> [] | Some fs \<Rightarrow> fs)"

definition currentIds :: "agent_status \<Rightarrow> string list" where
  "currentIds s = newSet (map f_id (findingsOf s))"

definition newIds :: "string list \<Rightarrow> agent_status \<Rightarrow> string list" where
  "newIds seen s = filter (\<lambda>i. i \<notin> set seen) (currentIds s)"

definition findingToast :: "agent_status \<Rightarrow> string \<Rightarrow> notification list" where
  "findingToast s i =
     (case find (\<lambda>x. f_id x = i) (findingsOf s) of
        None \<Rightarrow> []
      | Some f \<Rightarrow> [(toUpperCase (f_severity f) @ '': '' @ f_title f, f_severity f)])"

text \<open>The identifiers that detection reports: none while the seen set is empty.\<close>

definition detectedIds :: "string list \<Rightarrow> agent_status \<Rightarrow> string list" where
  "detectedIds seen s = (if length seen > 0 then newIds seen s else [])"

definition findingToasts :: "string list \<Rightarrow> agent_status \<Rightarrow> notification list" where
  "findingToasts seen s = concat (map (findingToast s) (detectedIds seen s))"

text \<open>The notifications of one successful status fetch, in the order of the source.\<close>

definition notifications :: "page \<Rightarrow> agent_status \<Rightarrow> notification list" where
  "notifications st s =
     phaseToast (prevPhase st) s @ statusToast (prevStatus st) s
       @ findingToasts (seenFindingIds st) s"

text \<open>
  A call of \<^verbatim>\<open>poll\<close> runs up to its first \<^verbatim>\<open>await\<close>: it issues the status request for
  the agent identifier of its closure.
\<close>

definition pollStart :: "closure \<Rightarrow> page \<Rightarrow> page" where
  "pollStart c st = (issue (GetStatus (c_agentId c)) st)\<lparr>statusRequests := statusRequests st @ [c]\<rparr>"

text \<open>
  The first \<^verbatim>\<open>try\<close> of \<^verbatim>\<open>poll\<close>, from the settled status request. The test
  \<^verbatim>\<open>if (connectionLost)\<close> reads the flag captured by the closure \<open>c\<close>, not the flag of the
  state; everything else reads and writes the refs and cells of the state.
\<close>

definition pollStatus ::
  "closure \<Rightarrow> (nat \<Rightarrow> string \<times> int) \<Rightarrow> agent_status outcome \<Rightarrow> page \<Rightarrow> page" where
  "pollStatus c stamp r st =
     (case r of
        Resolved s \<Rightarrow>
          st\<lparr>consecutiveErrors := 0,
             connectionLost := (if c_connectionLost c then False else connectionLost st),
             status := Some s,
             isRunning := (s_status s = ''running'' \<or> s_status s = ''paused''),
             storage :=
               (case storage st of
                  Some (Saved sess) \<Rightarrow> Some (Saved (sess\<lparr>sess_status := s_status s\<rparr>))
                | other \<Rightarrow> other),
             toasts := fold pushToast (stamped stamp (notifications st s)) (toasts st),
             prevPhase := (if truthy (s_phase s) then s_phase s else None),
             prevStatus := Some (s_status s),
             newFindingIds :=
               (if length (detectedIds (seenFindingIds st) s) > 0
                then detectedIds (seenFindingIds st) s else newFindingIds st),
             seenFindingIds := currentIds s\<rparr>
      | Rejected \<Rightarrow>
          st\<lparr>consecutiveErrors := consecutiveErrors st + 1,
             connectionLost := (if consecutiveErrors st + 1 \<ge> 3 then True else connectionLost st)\<rparr>)"

text \<open>The second \<^verbatim>\<open>try\<close> of \<^verbatim>\<open>poll\<close>, from the settled log request.\<close>

definition pollLogs :: "agent_log list option outcome \<Rightarrow> page \<Rightarrow> page" where
  "pollLogs r st =
     (case r of
        Resolved logData \<Rightarrow> st\<lparr>logs := (case logData of None \<Rightarrow> [] | Some ls \<Rightarrow> ls)\<rparr>
      | Rejected \<Rightarrow> st)"

section \<open>The polling effect\<close>

text \<open>The interval chosen from the failure count when the effect arms the timer.\<close>

definition nextInterval :: "nat \<Rightarrow> nat" where
  "nextInterval errors = (if errors \<ge> 3 then POLL_INTERVAL_ERROR else POLL_INTERVAL)"

text \<open>
  The body of the polling effect: without an agent identifier it returns at once;
  otherwise it creates \<^verbatim>\<open>poll\<close> over the current \<^verbatim>\<open>agentId\<close> and \<^verbatim>\<open>connectionLost\<close>, calls
  it once, and arms the interval timer with the period chosen from the failure count at
  that moment (the call has only issued its request by then).
\<close>

definition pollingEffect :: "page \<Rightarrow> page" where
  "pollingEffect st =
     (case agentId st of
        None \<Rightarrow> st
      | Some aid \<Rightarrow>
          if aid = [] then st
          else
            let c = \<lparr>c_agentId = aid, c_connectionLost = connectionLost st\<rparr>
            in (pollStart c st)
                 \<lparr>pollTimer := Some \<lparr>tm_period = nextInterval (consecutiveErrors st), tm_closure = c\<rparr>\<rparr>)"

text \<open>
  The cleanup that the previous run of the effect returned, if it got past its guard
  (\<open>old\<close> is the state it ran in): it clears the timer.
\<close>

definition cleanup :: "page \<Rightarrow> page \<Rightarrow> page" where
  "cleanup old st = (if truthy (agentId old) then st\<lparr>pollTimer := None\<rparr> else st)"

text \<open>
  After a handler or a callback has changed the state from \<open>old\<close> to \<open>new\<close>, the page
  renders again, and the polling effect (dependencies \<^verbatim>\<open>agentId\<close>, \<^verbatim>\<open>connectionLost\<close> and
  the constant \<^verbatim>\<open>addToast\<close>) is cleaned up and run again if a dependency changed.
\<close>

definition commit :: "page \<Rightarrow> page \<Rightarrow> page" where
  "commit old new =
     (if agentId new \<noteq> agentId old \<or> connectionLost new \<noteq> connectionLost old
      then pollingEffect (cleanup old new) else new)"

section \<open>Ticks and settled requests\<close>

text \<open>A tick of the armed timer calls the \<^verbatim>\<open>poll\<close> of the effect run that armed it.\<close>

definition timerTick :: "page \<Rightarrow> page" where
  "timerTick st = (case pollTimer st of None \<Rightarrow> st | Some tm \<Rightarrow> pollStart (tm_closure tm) st)"

text \<open>
  A pending status request of a \<^verbatim>\<open>poll\<close> with closure \<open>c\<close> settles: the first \<^verbatim>\<open>try\<close>
  runs, the log request is issued, and the page renders. Nothing checks that the agent
  identifier of the closure is still the current one.
\<close>

definition statusSettled ::
  "closure \<Rightarrow> (nat \<Rightarrow> string \<times> int) \<Rightarrow> agent_status outcome \<Rightarrow> page \<Rightarrow> page" where
  "statusSettled c stamp r st =
     (if c \<in> set (statusRequests st)
      then commit st
             ((issue (GetLogs (c_agentId c) 300)
                 (pollStatus c stamp r (st\<lparr>statusRequests := remove1 c (statusRequests st)\<rparr>)))
                \<lparr>logRequests := logRequests st @ [c]\<rparr>)
      else st)"

text \<open>A pending log request settles: the second \<^verbatim>\<open>try\<close> runs (no dependency of the
  polling effect changes).\<close>

definition logsSettled :: "closure \<Rightarrow> agent_log list option outcome \<Rightarrow> page \<Rightarrow> page" where
  "logsSettled c r st =
     (if c \<in> set (logRequests st)
      then pollLogs r (st\<lparr>logRequests := remove1 c (logRequests st)\<rparr>)
      else st)"

text \<open>
  A poll cycle without overlap: a tick of the armed timer whose two requests settle
  before anything else happens.
\<close>

definition pollCycle ::
  "(nat \<Rightarrow> string \<times> int) \<Rightarrow> agent_status outcome \<Rightarrow> agent_log list option outcome
     \<Rightarrow> page \<Rightarrow> page" where
  "pollCycle stamp sres lres st =
     (case pollTimer st of
        None \<Rightarrow> st
      | Some tm \<Rightarrow>
          logsSettled (tm_closure tm) lres
            (statusSettled (tm_closure tm) stamp sres (timerTick st)))"

section \<open>Actions\<close>

definition startErrorText :: "start_error \<Rightarrow> string option" where
  "startErrorText err =
     (if e_status err = Some 429 then e_detail err
      else orElse (e_detail err) (orElse (e_message err) (Some ''Failed to start FULL AI pentest'')))"

text \<open>
  \<^verbatim>\<open>handleStart\<close>, from the settled start request (\<open>Inr\<close> the \<^verbatim>\<open>agent_id\<close> of the response,
  \<open>Inl\<close> the error), the stamp of its toast and the time of \<^verbatim>\<open>new Date()\<close>.
\<close>

definition handleStart :: "start_error + string \<Rightarrow> string \<times> int \<Rightarrow> int \<Rightarrow> page \<Rightarrow> page" where
  "handleStart resp stamp now st =
     (let primaryTarget = trim (target st) in
      case promptContent st of
        None \<Rightarrow> st
      | Some prompt \<Rightarrow>
          if primaryTarget = [] \<or> prompt = [] then st
          else
            let st1 =
              issue
                (AutoPentest primaryTarget
                   \<lparr>o_mode = ''full_llm_pentest'', o_prompt = prompt,
                    o_enable_kali_sandbox = False,
                    o_auth_type = orUndefined (authType st),
                    o_auth_value = orUndefined (authValue st),
                    o_preferred_provider = orUndefined (selectedProvider st),
                    o_preferred_model = orUndefined (selectedModel st)\<rparr>)
                (st\<lparr>error := None, logs := [], reportId := None, seenFindingIds := [],
                    prevPhase := None, prevStatus := None, consecutiveErrors := 0\<rparr>)
            in
              (case resp of
                 Inr agent_id \<Rightarrow>
                   st1\<lparr>agentId := Some agent_id,
                       isRunning := True,
                       toasts := addToast (fst stamp) (snd stamp) ''Full LLM Pentest started'' ''info''
                                   (toasts st1),
                       storage :=
                         Some (Saved \<lparr>sess_agentId = agent_id, sess_target = primaryTarget,
                                       sess_startedAt = now, sess_status = ''running''\<rparr>)\<rparr>
               | Inl err \<Rightarrow> st1\<lparr>error := startErrorText err\<rparr>))"

text \<open>\<^verbatim>\<open>handleStop\<close>, from the settled stop request.\<close>

definition handleStop :: "unit outcome \<Rightarrow> page \<Rightarrow> page" where
  "handleStop r st =
     (case agentId st of
        None \<Rightarrow> st
      | Some aid \<Rightarrow>
          if aid = [] then st
          else
            (case r of
               Resolved u \<Rightarrow> (issue (StopAgent aid) st)\<lparr>isRunning := False\<rparr>
             | Rejected \<Rightarrow> issue (StopAgent aid) st))"

text \<open>
  \<^verbatim>\<open>handleClear\<close>: the cells and refs it assigns, and the removal of the stored session.
  It has no assignment to \<^verbatim>\<open>consecutiveErrorsRef\<close>.
\<close>

definition handleClear :: "page \<Rightarrow> page" where
  "handleClear st =
     st\<lparr>agentId := None, status := None, isRunning := False, logs := [], error := None,
        reportId := None, elapsedSeconds := 0, activeTab := Findings, newFindingIds := [],
        connectionLost := False, seenFindingIds := [], prevPhase := None, prevStatus := None,
        storage := None\<rparr>"

text \<open>The session restored by the mount effect from local storage.\<close>

definition restore :: "page \<Rightarrow> page" where
  "restore st =
     (case storage st of
        Some (Saved sess) \<Rightarrow>
          st\<lparr>agentId := Some (sess_agentId sess), target := sess_target sess,
             isRunning := (sess_status sess = ''running'')\<rparr>
      | other \<Rightarrow> st)"

section \<open>The page as a transition system\<close>

text \<open>
  The commands of the page, each followed by the render it causes. The start and stop
  commands are taken together with the response they await.
\<close>

definition mount :: "stored option \<Rightarrow> page" where
  "mount stg = commit (initial stg) (restore (initial stg))"

definition startSession :: "start_error + string \<Rightarrow> string \<times> int \<Rightarrow> int \<Rightarrow> page \<Rightarrow> page" where
  "startSession resp stamp now st = commit st (handleStart resp stamp now st)"

definition stopSession :: "unit outcome \<Rightarrow> page \<Rightarrow> page" where
  "stopSession r st = commit st (handleStop r st)"

definition clearSession :: "page \<Rightarrow> page" where
  "clearSession st = commit st (handleClear st)"

text \<open>
  What can happen to the page, one event at a time: the form is edited or the prompt
  loaded, a command runs, the timer ticks, a pending request settles (in any order, under
  any closure still pending), a toast is dismissed or expires, the elapsed-time effect
  runs.
\<close>

datatype event =
    Form string string string string string "string option"
  | Start "start_error + string" "string \<times> int" int
  | Tick
  | StatusSettled closure "nat \<Rightarrow> string \<times> int" "agent_status outcome"
  | LogsSettled closure "agent_log list option outcome"
  | Stop "unit outcome"
  | Clear
  | Dismiss string
  | Elapsed int

fun step :: "event \<Rightarrow> page \<Rightarrow> page" where
  "step (Form t a v sp sm pc) st =
     st\<lparr>target := t, authType := a, authValue := v, selectedProvider := sp,
        selectedModel := sm, promptContent := pc\<rparr>"
| "step (Start resp stamp now) st = startSession resp stamp now st"
| "step Tick st = timerTick st"
| "step (StatusSettled c stamp r) st = statusSettled c stamp r st"
| "step (LogsSettled c r) st = logsSettled c r st"
| "step (Stop r) st = stopSession r st"
| "step Clear st = clearSession st"
| "step (Dismiss i) st = st\<lparr>toasts := dismissToast i (toasts st)\<rparr>"
| "step (Elapsed now) st = elapsedEffect now st"

text \<open>The two commands that assign the agent identifier.\<close>

fun startsOrClears :: "event \<Rightarrow> bool" where
  "startsOrClears (Start resp stamp now) = True"
| "startsOrClears Clear = True"
| "startsOrClears e = False"

text \<open>
  The page polls for the agent identifier \<open>aid\<close>: it is the current identifier, and a
  timer is armed whose \<^verbatim>\<open>poll\<close> has captured it.
\<close>

definition armedFor :: "string \<Rightarrow> page \<Rightarrow> bool" where
  "armedFor aid st =
     (agentId st = Some aid
      \<and> (case pollTimer st of None \<Rightarrow> False | Some tm \<Rightarrow> c_agentId (tm_closure tm) = aid))"


section \<open>Sequences of snapshots\<close>

text \<open>
  The state after a sequence of successfully fetched snapshots (each with the closure of
  its request), the finding identifiers that detection reports along the sequence, and
  the sequences in which no snapshot lacks an identifier of the seen set held before it.
\<close>

fun polls :: "(nat \<Rightarrow> string \<times> int) \<Rightarrow> (closure \<times> agent_status) list \<Rightarrow> page \<Rightarrow> page" where
  "polls stamp [] st = st"
| "polls stamp ((c, s) # ss) st = polls stamp ss (pollStatus c stamp (Resolved s) st)"

fun reported :: "(nat \<Rightarrow> string \<times> int) \<Rightarrow> (closure \<times> agent_status) list \<Rightarrow> page \<Rightarrow> string list" where
  "reported stamp [] st = []"
| "reported stamp ((c, s) # ss) st =
     detectedIds (seenFindingIds st) s @ reported stamp ss (pollStatus c stamp (Resolved s) st)"

fun neverWithdrawn :: "(nat \<Rightarrow> string \<times> int) \<Rightarrow> (closure \<times> agent_status) list \<Rightarrow> page \<Rightarrow> bool" where
  "neverWithdrawn stamp [] st = True"
| "neverWithdrawn stamp ((c, s) # ss) st =
     (set (seenFindingIds st) \<subseteq> set (currentIds s)
      \<and> neverWithdrawn stamp ss (pollStatus c stamp (Resolved s) st))"

section \<open>A concrete session\<close>

text \<open>
  Inputs and states used to run the definitions: a form with a target and a loaded
  prompt, the session started from it with agent identifier \<open>a1\<close>, and snapshots built
  from a status, a phase and a list of finding identifiers.
\<close>

definition stamp0 :: "nat \<Rightarrow> string \<times> int" where
  "stamp0 k = (''n'', 0)"

definition finding :: "string \<Rightarrow> agent_finding" where
  "finding i = \<lparr>f_id = i, f_severity = ''high'', f_title = i\<rparr>"

definition snap :: "string \<Rightarrow> string \<Rightarrow> string list \<Rightarrow> agent_status" where
  "snap st ph ids =
     \<lparr>s_status = st, s_phase = Some ph, s_started_at = Some 0, s_completed_at = None,
      s_findings = Some (map finding ids), s_findings_count = length ids\<rparr>"

definition form0 :: page where
  "form0 = (initial None)\<lparr>target := ''http://t'', promptContent := Some ''p''\<rparr>"

definition started :: page where
  "started = startSession (Inr ''a1'') (''s'', 0) 0 form0"

definition fiveToasts :: "toast list" where
  "fiveToasts =
     map (\<lambda>i. \<lparr>t_id = i, t_message = ''m'', t_severity = ''info'', t_timestamp = 0\<rparr>)
       [''1'', ''2'', ''3'', ''4'', ''5'']"

text \<open>A snapshot whose start time (10 s) is ahead of the browser's clock.\<close>

definition ahead :: page where
  "ahead =
     pollCycle stamp0 (Resolved ((snap ''running'' ''recon'' [])\<lparr>s_started_at := Some 10000\<rparr>))
       Rejected started"

text \<open>The session stopped by the user, then three poll cycles whose status request fails.\<close>

definition lost :: page where
  "lost =
     pollCycle stamp0 Rejected Rejected
       (pollCycle stamp0 Rejected Rejected
          (pollCycle stamp0 Rejected Rejected (stopSession (Resolved ()) started)))"

text \<open>The started session after a snapshot that reports the run completed.\<close>

definition finished :: page where
  "finished = pollCycle stamp0 (Resolved (snap ''completed'' ''testing'' [])) Rejected started"

text \<open>The started session after a first snapshot without findings, and after a second
  one in the next phase with the finding \<open>f1\<close>.\<close>

definition first :: page where
  "first = pollCycle stamp0 (Resolved (snap ''running'' ''recon'' [])) Rejected started"

definition second :: page where
  "second = pollCycle stamp0 (Resolved (snap ''running'' ''testing'' [''f1''])) Rejected first"

text \<open>The started session after snapshots in which the finding \<open>f1\<close> appears, is
  withdrawn, and appears again.\<close>

definition seen1 :: page where
  "seen1 = pollCycle stamp0 (Resolved (snap ''running'' ''testing'' [''f0''])) Rejected started"

definition seen2 :: page where
  "seen2 = pollCycle stamp0 (Resolved (snap ''running'' ''testing'' [''f0'', ''f1''])) Rejected seen1"

definition seen3 :: page where
  "seen3 = pollCycle stamp0 (Resolved (snap ''running'' ''testing'' [''f0''])) Rejected seen2"

definition seen4 :: page where
  "seen4 = pollCycle stamp0 (Resolved (snap ''running'' ''testing'' [''f0'', ''f1''])) Rejected seen3"

text \<open>
  The started session when three ticks have had their status requests rejected while
  the request of the effect's first \<^verbatim>\<open>poll()\<close> is still pending, and then that first
  request, issued under the closure \<open>firstPoll\<close>, resolves.
\<close>

definition firstPoll :: closure where
  "firstPoll = \<lparr>c_agentId = ''a1'', c_connectionLost = False\<rparr>"



section \<open>Running the definitions\<close>

lemmas session_defs =
  started_def form0_def initial_def stamp0_def snap_def finding_def
  startSession_def handleStart_def stopSession_def handleStop_def clearSession_def
  handleClear_def pollCycle_def timerTick_def statusSettled_def logsSettled_def
  pollStart_def pollStatus_def pollLogs_def notifications_def
  phaseToast_def statusToast_def findingToasts_def findingToast_def detectedIds_def
  newIds_def currentIds_def findingsOf_def stamped_def enumerate_eq_zip pushToast_def
  addToast_def slice_def toUpperCase_def
  commit_def cleanup_def pollingEffect_def nextInterval_def pollPeriod_def issue_def
  trim_def isWhiteSpace_def orUndefined_def Let_def
  POLL_INTERVAL_def POLL_INTERVAL_ERROR_def MAX_TOASTS_def char_of_def bit_iff_odd

section \<open>The notification queue is bounded\<close>

lemma addToast_drop:
  "addToast i ts m sv q =
     drop (length q - 4) q @ [\<lparr>t_id = i, t_message = m, t_severity = sv, t_timestamp = ts\<rparr>]"
proof -
  have "nat (max (int (length q) + (- 4)) 0) = length q - 4"
    by (simp add: max_def nat_diff_distrib')
  then show ?thesis
    by (simp add: addToast_def slice_def MAX_TOASTS_def Let_def)
qed

lemma addToast_length: "length (addToast i ts m sv q) \<le> 5"
  by (simp add: addToast_drop)

lemma pushToast_length: "length (pushToast p q) \<le> 5"
  by (cases p) (simp add: pushToast_def addToast_length)

lemma fold_pushToast_length: "length q \<le> 5 \<Longrightarrow> length (fold pushToast ps q) \<le> 5"
  by (induction ps arbitrary: q) (simp_all add: pushToast_length)

text \<open>
  C6. Whatever the pushes, the queue never holds more than 5 toasts. A push onto a queue
  of at most 4 toasts appends; a push onto a full queue (the 6th push) appends the new
  toast and drops the oldest one, the remaining entries keeping their order.
\<close>

theorem addToast_bounded:
  "length (fold pushToast ps []) \<le> MAX_TOASTS
   \<and> length (addToast i ts m sv q) \<le> MAX_TOASTS
   \<and> (length q < MAX_TOASTS \<longrightarrow>
        addToast i ts m sv q = q @ [\<lparr>t_id = i, t_message = m, t_severity = sv, t_timestamp = ts\<rparr>])
   \<and> (length q = MAX_TOASTS \<longrightarrow>
        addToast i ts m sv q = tl q @ [\<lparr>t_id = i, t_message = m, t_severity = sv, t_timestamp = ts\<rparr>])"
proof -
  have a: "length (fold pushToast ps []) \<le> MAX_TOASTS"
    using fold_pushToast_length [of "[]" ps] by (simp add: MAX_TOASTS_def)
  have b: "length (addToast i ts m sv q) \<le> MAX_TOASTS"
    by (simp add: addToast_length MAX_TOASTS_def)
  have c: "length q < MAX_TOASTS \<longrightarrow>
        addToast i ts m sv q = q @ [\<lparr>t_id = i, t_message = m, t_severity = sv, t_timestamp = ts\<rparr>]"
    by (simp add: addToast_drop MAX_TOASTS_def)
  have d: "length q = MAX_TOASTS \<longrightarrow>
        addToast i ts m sv q = tl q @ [\<lparr>t_id = i, t_message = m, t_severity = sv, t_timestamp = ts\<rparr>]"
    by (simp add: addToast_drop MAX_TOASTS_def drop_Suc)
  from a b c d show ?thesis by blast
qed

theorem addToast_bounded_witness:
  "length fiveToasts = MAX_TOASTS
   \<and> addToast ''6'' 0 ''m'' ''info'' fiveToasts =
       map (\<lambda>i. \<lparr>t_id = i, t_message = ''m'', t_severity = ''info'', t_timestamp = 0\<rparr>)
         [''2'', ''3'', ''4'', ''5'', ''6'']"
  using addToast_bounded [of "[]" "''6''" 0 "''m''" "''info''" fiveToasts]
  by (simp add: fiveToasts_def MAX_TOASTS_def)

section \<open>Status transitions\<close>

text \<open>
  C8. The status-transition rule emits a notification exactly for the pairs
  running to completed, running to error and running to stopped, and then exactly one;
  for every other pair of previous and current status, and for the first snapshot (no
  previous status), it emits none.
\<close>

theorem statusToast_pairs:
  "(statusToast prev s \<noteq> [] \<longleftrightarrow>
      prev = Some ''running'' \<and> s_status s \<in> {''completed'', ''error'', ''stopped''})
   \<and> length (statusToast prev s) \<le> 1
   \<and> statusToast None s = []"
  by (simp add: statusToast_def)

theorem statusToast_pairs_witness:
  "statusToast (Some ''running'') (snap ''completed'' ''testing'' [''f1''])
     = [(''Pentest complete! 1 findings'', ''completed'')]
   \<and> statusToast (Some ''paused'') (snap ''running'' ''testing'' []) = []
   \<and> statusToast (Some ''completed'') (snap ''completed'' ''testing'' []) = []"
  using statusToast_pairs [of "Some ''running''" "snap ''completed'' ''testing'' [''f1'']"]
        statusToast_pairs [of "Some ''paused''" "snap ''running'' ''testing'' []"]
        statusToast_pairs [of "Some ''completed''" "snap ''completed'' ''testing'' []"]
  by (simp add: statusToast_def snap_def finding_def digit_def)

section \<open>The guard of the start command\<close>

lemma commit_same: "commit st st = st"
  by (simp add: commit_def)

text \<open>
  C10. When the trimmed target is empty or the prompt has not been loaded, the start
  command returns the state it was given: no request is added to those sent, no session
  record stored, no toast pushed, no error set, and the accumulators are as before.
\<close>

theorem handleStart_guard:
  assumes "trim (target st) = [] \<or> promptContent st = None"
  shows "handleStart resp stamp now st = st \<and> startSession resp stamp now st = st"
proof -
  have "handleStart resp stamp now st = st"
    using assms by (auto simp: handleStart_def Let_def split: option.splits)
  then show ?thesis
    by (simp add: startSession_def commit_same)
qed

theorem handleStart_guard_witness:
  "trim (target ((initial None)\<lparr>target := ''  '', promptContent := Some ''p''\<rparr>)) = []
   \<and> startSession (Inr ''a1'') (''s'', 0) 0 ((initial None)\<lparr>target := ''  '', promptContent := Some ''p''\<rparr>)
       = (initial None)\<lparr>target := ''  '', promptContent := Some ''p''\<rparr>
   \<and> promptContent ((initial None)\<lparr>target := ''http://t''\<rparr>) = None
   \<and> startSession (Inr ''a1'') (''s'', 0) 0 ((initial None)\<lparr>target := ''http://t''\<rparr>)
       = (initial None)\<lparr>target := ''http://t''\<rparr>"
proof -
  have t: "trim (target ((initial None)\<lparr>target := ''  '', promptContent := Some ''p''\<rparr>)) = []"
    by (simp add: trim_def isWhiteSpace_def)
  have p: "promptContent ((initial None)\<lparr>target := ''http://t''\<rparr>) = None"
    by (simp add: initial_def)
  from t p
    handleStart_guard [of "(initial None)\<lparr>target := ''  '', promptContent := Some ''p''\<rparr>"
                          "Inr ''a1''" "(''s'', 0)" 0]
    handleStart_guard [of "(initial None)\<lparr>target := ''http://t''\<rparr>" "Inr ''a1''" "(''s'', 0)" 0]
  show ?thesis by blast
qed

section \<open>Sign of the elapsed time\<close>

lemma elapsed_frozen_nonneg: "0 \<le> elapsed startTime completed False now"
  by (simp add: elapsed_def Let_def)

lemma elapsed_running_nonneg: "startTime \<le> now \<Longrightarrow> 0 \<le> elapsed startTime completed True now"
  by (simp add: elapsed_def)

text \<open>
  C9. The elapsed time is claimed to be non-negative for every input, also while the run
  is active. The branch for a stopped run clamps at 0 (\<open>elapsed_frozen_nonneg\<close>); the
  branch for an active run does not: with a start time of 10 s and a clock at 5 s, the
  page shows an elapsed time of minus 5 seconds.
\<close>

theorem elapsed_running_negative:
  "elapsed 10000 None True 5000 = - 5
   \<and> isRunning ahead
   \<and> elapsedSeconds (elapsedEffect 5000 ahead) = - 5"
  by (simp add: elapsed_def elapsedEffect_def ahead_def session_defs)

section \<open>The stop command\<close>

text \<open>
  C4, as stated, fails: when the stop request is rejected, the error is swallowed and the
  run flag stays set.
\<close>

theorem handleStop_counterexample:
  "truthy (agentId started) \<and> isRunning started
   \<and> sent (stopSession Rejected started) = sent started @ [StopAgent ''a1'']
   \<and> isRunning (stopSession Rejected started)"
  by (simp add: session_defs)

text \<open>
  C4, amended. With an active agent identifier the stop command issues one stop request.
  If the request succeeds, the run flag is cleared; if it fails, the failure is swallowed
  and the run flag is left as it was. Nothing else changes.
\<close>

theorem handleStop_effect:
  assumes "agentId st = Some aid" and "aid \<noteq> []"
  shows "sent (stopSession r st) = sent st @ [StopAgent aid]
         \<and> isRunning (stopSession r st) = (r = Rejected \<and> isRunning st)
         \<and> (stopSession r st)\<lparr>isRunning := isRunning st, sent := sent st\<rparr> = st"
  using assms
  by (cases r) (simp_all add: stopSession_def handleStop_def commit_def issue_def)

theorem handleStop_effect_witness:
  "agentId started = Some ''a1''
   \<and> sent (stopSession (Resolved ()) started) = sent started @ [StopAgent ''a1'']
   \<and> \<not> isRunning (stopSession (Resolved ()) started)
   \<and> isRunning (stopSession Rejected started)"
proof -
  have a: "agentId started = Some ''a1''" and b: "isRunning started"
    by (simp_all add: session_defs)
  have c: "''a1'' \<noteq> []" by simp
  from a b handleStop_effect [OF a c, of "Resolved ()"] handleStop_effect [OF a c, of Rejected]
  show ?thesis by simp
qed

section \<open>Clearing a session\<close>

lemma handleStart_resets:
  assumes "trim (target st) \<noteq> []" and "truthy (promptContent st)"
  shows "seenFindingIds (handleStart resp stamp now st) = []
         \<and> prevPhase (handleStart resp stamp now st) = None
         \<and> prevStatus (handleStart resp stamp now st) = None
         \<and> consecutiveErrors (handleStart resp stamp now st) = 0"
  using assms
  by (cases "promptContent st"; cases resp) (simp_all add: handleStart_def issue_def Let_def)

lemma handleClear_resets:
  "seenFindingIds (handleClear st) = [] \<and> prevPhase (handleClear st) = None
   \<and> prevStatus (handleClear st) = None
   \<and> consecutiveErrors (handleClear st) = consecutiveErrors st"
  by (simp add: handleClear_def)

text \<open>
  C5. Clearing is claimed to reset the accumulator, the two markers and the failure
  count. \<open>handleClear\<close> resets the first three and the connection-lost flag, but not the
  failure count, which \<open>handleStart\<close> does reset: after three failed polls and a clear,
  the count is still 3, while its initial value is 0.
\<close>

theorem handleClear_keeps_failure_count:
  "consecutiveErrors lost = 3
   \<and> \<not> isRunning lost
   \<and> consecutiveErrors (clearSession lost) = 3
   \<and> \<not> connectionLost (clearSession lost)
   \<and> consecutiveErrors (initial None) = 0"
  by (simp add: lost_def session_defs)

section \<open>Polling cadence\<close>

lemma statusSettled_agentId: "agentId (statusSettled c stamp r st) = agentId st"
  by (cases r)
     (auto simp: statusSettled_def pollStatus_def commit_def cleanup_def pollingEffect_def
        pollStart_def issue_def Let_def split: option.splits)

lemma logsSettled_keeps:
  "agentId (logsSettled c r st) = agentId st"
  "pollTimer (logsSettled c r st) = pollTimer st"
  "connectionLost (logsSettled c r st) = connectionLost st"
  "consecutiveErrors (logsSettled c r st) = consecutiveErrors st"
  by (cases r; simp add: logsSettled_def pollLogs_def)+

lemma timerTick_keeps:
  "agentId (timerTick st) = agentId st"
  "pollTimer (timerTick st) = pollTimer st"
  "connectionLost (timerTick st) = connectionLost st"
  "consecutiveErrors (timerTick st) = consecutiveErrors st"
  by (simp_all add: timerTick_def pollStart_def issue_def split: option.splits)









lemma pollCycle_agentId: "agentId (pollCycle stamp sres lres st) = agentId st"
  by (simp add: pollCycle_def logsSettled_keeps statusSettled_agentId timerTick_keeps
      split: option.splits)







lemma started_agentId: "agentId started = Some ''a1''"
  by (simp add: session_defs)

section \<open>Terminal status\<close>

lemma armedFor_statusSettled:
  assumes "armedFor aid st" and "aid \<noteq> []"
  shows "armedFor aid (statusSettled c stamp r st)"
  using assms
  by (cases r)
     (auto simp: armedFor_def statusSettled_def pollStatus_def commit_def cleanup_def
        pollingEffect_def pollStart_def issue_def Let_def split: option.splits)

lemma armedFor_step:
  assumes "armedFor aid st" and "aid \<noteq> []" and "\<not> startsOrClears e"
  shows "armedFor aid (step e st)"
proof (cases e)
  case (Form t a v sp sm pc)
  with assms show ?thesis by (auto simp: armedFor_def split: option.splits)
next
  case (Start resp stamp now)
  with assms(3) show ?thesis by simp
next
  case Tick
  with assms show ?thesis
    by (auto simp: armedFor_def timerTick_keeps split: option.splits)
next
  case (StatusSettled c stamp r)
  with assms show ?thesis by (simp add: armedFor_statusSettled)
next
  case (LogsSettled c r)
  with assms show ?thesis
    by (auto simp: armedFor_def logsSettled_keeps split: option.splits)
next
  case (Stop r)
  with assms show ?thesis
    by (cases r)
       (auto simp: armedFor_def stopSession_def handleStop_def commit_def issue_def
          split: option.splits)
next
  case Clear
  with assms(3) show ?thesis by simp
next
  case (Dismiss i)
  with assms show ?thesis by (auto simp: armedFor_def split: option.splits)
next
  case (Elapsed now)
  with assms show ?thesis
    by (auto simp: armedFor_def elapsedEffect_def split: option.splits)
qed

lemma armedFor_run:
  "armedFor aid st \<Longrightarrow> aid \<noteq> [] \<Longrightarrow> \<forall>e \<in> set evs. \<not> startsOrClears e \<Longrightarrow>
     armedFor aid (fold step evs st)"
proof (induction evs arbitrary: st)
  case Nil
  then show ?case by simp
next
  case (Cons e evs)
  from Cons.prems have "armedFor aid (step e st)"
    by (simp add: armedFor_step)
  with Cons show ?case by simp
qed

lemma statusSettled_isRunning:
  assumes "c \<in> set (statusRequests st)"
  shows "isRunning (statusSettled c stamp (Resolved s) st)
           = (s_status s = ''running'' \<or> s_status s = ''paused'')"
  using assms
  by (auto simp: statusSettled_def pollStatus_def commit_def cleanup_def pollingEffect_def
      pollStart_def issue_def Let_def split: option.splits)

lemma armedFor_clear:
  assumes "armedFor aid st" and "aid \<noteq> []"
  shows "pollTimer (clearSession st) = None \<and> agentId (clearSession st) = None"
  using assms
  by (auto simp: armedFor_def clearSession_def handleClear_def commit_def cleanup_def
      pollingEffect_def)

text \<open>
  C2, as stated, fails: after a snapshot that reports the run completed, the timer is
  still armed for the same agent identifier, and the next cycle sends a status request
  and a log request for it.
\<close>

theorem terminal_status_counterexample:
  "s_status (snap ''completed'' ''testing'' []) = ''completed''
   \<and> agentId finished = Some ''a1''
   \<and> pollPeriod finished = Some 1500
   \<and> sent (pollCycle stamp0 Rejected Rejected finished)
       = sent finished @ [GetStatus ''a1'', GetLogs ''a1'' 300]"
  by (simp add: finished_def session_defs)

text \<open>
  C2, amended. When a successfully fetched snapshot reports a terminal status
  (completed, error or stopped) while the page polls for an agent identifier, the run
  flag is cleared, but the polling timer is not cancelled: whatever happens afterwards
  short of a clear or start command (ticks, settled requests, stop commands, in any
  number and order), the identifier stays, a timer stays armed for it, and a tick of
  the timer issues a status request for it. Clearing the session removes the
  identifier and cancels the timer.
\<close>

theorem terminal_status_keeps_polling:
  assumes "armedFor aid st" and "aid \<noteq> []"
    and "c \<in> set (statusRequests st)"
    and "s_status s \<in> {''completed'', ''error'', ''stopped''}"
    and "\<forall>e \<in> set evs. \<not> startsOrClears e"
  shows "\<not> isRunning (statusSettled c k (Resolved s) st)
    \<and> agentId (fold step evs (statusSettled c k (Resolved s) st)) = Some aid
    \<and> pollTimer (fold step evs (statusSettled c k (Resolved s) st)) \<noteq> None
    \<and> sent (timerTick (fold step evs (statusSettled c k (Resolved s) st)))
        = sent (fold step evs (statusSettled c k (Resolved s) st)) @ [GetStatus aid]
    \<and> pollTimer (clearSession (fold step evs (statusSettled c k (Resolved s) st))) = None"
proof -
  let ?t = "statusSettled c k (Resolved s) st"
  let ?u = "fold step evs ?t"
  have run: "\<not> isRunning ?t"
    using statusSettled_isRunning [OF assms(3), of k s] assms(4) by auto
  have "armedFor aid ?t"
    using assms(1,2) by (rule armedFor_statusSettled)
  then have u: "armedFor aid ?u"
    using assms(2,5) by (rule armedFor_run)
  then obtain tm where au: "agentId ?u = Some aid" and tm: "pollTimer ?u = Some tm"
    and ctm: "c_agentId (tm_closure tm) = aid"
    by (auto simp: armedFor_def split: option.splits)
  have tick: "sent (timerTick ?u) = sent ?u @ [GetStatus aid]"
    using tm ctm by (simp add: timerTick_def pollStart_def issue_def)
  from run au tm tick armedFor_clear [OF u assms(2)] show ?thesis by simp
qed

theorem terminal_status_keeps_polling_witness:
  "armedFor ''a1'' started
   \<and> \<not> isRunning (statusSettled firstPoll stamp0 (Resolved (snap ''completed'' ''testing'' [])) started)
   \<and> pollTimer
        (fold step [Tick, Stop (Resolved ()), StatusSettled firstPoll stamp0 Rejected, Tick]
           (statusSettled firstPoll stamp0 (Resolved (snap ''completed'' ''testing'' [])) started))
       \<noteq> None
   \<and> sent (timerTick
        (fold step [Tick, Stop (Resolved ()), StatusSettled firstPoll stamp0 Rejected, Tick]
           (statusSettled firstPoll stamp0 (Resolved (snap ''completed'' ''testing'' [])) started)))
       = sent
          (fold step [Tick, Stop (Resolved ()), StatusSettled firstPoll stamp0 Rejected, Tick]
             (statusSettled firstPoll stamp0 (Resolved (snap ''completed'' ''testing'' [])) started))
          @ [GetStatus ''a1'']"
proof -
  have a: "armedFor ''a1'' started"
    by (simp add: armedFor_def session_defs)
  have n: "''a1'' \<noteq> []" by simp
  have p: "firstPoll \<in> set (statusRequests started)"
    by (simp add: firstPoll_def session_defs)
  have t: "s_status (snap ''completed'' ''testing'' []) \<in> {''completed'', ''error'', ''stopped''}"
    by (simp add: snap_def)
  have e: "\<forall>e \<in> set [Tick, Stop (Resolved ()), StatusSettled firstPoll stamp0 Rejected, Tick].
      \<not> startsOrClears e"
    by simp
  from a terminal_status_keeps_polling [OF a n p t e, of stamp0]
  show ?thesis by blast
qed

section \<open>New findings\<close>

lemma set_newSet: "set (newSet xs) = set xs"
  by (induction xs) auto

lemma distinct_newSet: "distinct (newSet xs)"
  by (induction xs) (auto simp: set_newSet)

lemma distinct_detectedIds: "distinct (detectedIds seen s)"
  by (simp add: detectedIds_def newIds_def currentIds_def distinct_newSet)

lemma set_detectedIds: "set (detectedIds seen s) \<subseteq> set (currentIds s) - set seen"
  by (auto simp: detectedIds_def newIds_def)

lemma detectedIds_empty: "detectedIds [] s = []"
  by (simp add: detectedIds_def)

lemma pollStatus_seen: "seenFindingIds (pollStatus c stamp (Resolved s) st) = currentIds s"
  by (simp add: pollStatus_def)

lemma pollCycle_Resolved:
  assumes "pollTimer st = Some tm"
  shows "seenFindingIds (pollCycle stamp (Resolved s) lres st) = currentIds s"
    and "prevPhase (pollCycle stamp (Resolved s) lres st)
           = (if truthy (s_phase s) then s_phase s else None)"
    and "prevStatus (pollCycle stamp (Resolved s) lres st) = Some (s_status s)"
    and "toasts (pollCycle stamp (Resolved s) lres st)
           = fold pushToast (stamped stamp (notifications st s)) (toasts st)"
    and "newFindingIds (pollCycle stamp (Resolved s) lres st)
           = (if length (detectedIds (seenFindingIds st) s) > 0
              then detectedIds (seenFindingIds st) s else newFindingIds st)"
  using assms
  by (cases lres;
      auto simp: pollCycle_def timerTick_def statusSettled_def logsSettled_def pollStart_def
        pollStatus_def pollLogs_def issue_def commit_def cleanup_def pollingEffect_def
        notifications_def Let_def split: option.splits)+

lemma pollCycle_armed:
  assumes "pollTimer st = Some tm" and "agentId st = Some aid" and "aid \<noteq> []"
  shows "pollTimer (pollCycle stamp sres lres st) \<noteq> None"
  using assms
  by (cases sres; cases lres)
     (auto simp: pollCycle_def timerTick_def statusSettled_def logsSettled_def pollStart_def
        pollStatus_def pollLogs_def issue_def commit_def cleanup_def pollingEffect_def
        Let_def)

lemma startSession_fresh:
  assumes "agentId st0 = None" and "trim (target st0) \<noteq> []"
    and "promptContent st0 = Some prompt" and "prompt \<noteq> []" and "aid \<noteq> []"
  shows "agentId (startSession (Inr aid) stamp now st0) = Some aid"
    and "pollTimer (startSession (Inr aid) stamp now st0) \<noteq> None"
    and "seenFindingIds (startSession (Inr aid) stamp now st0) = []"
    and "prevPhase (startSession (Inr aid) stamp now st0) = None"
    and "prevStatus (startSession (Inr aid) stamp now st0) = None"
  using assms
  by (simp_all add: startSession_def handleStart_def commit_def cleanup_def pollingEffect_def
      pollStart_def nextInterval_def issue_def Let_def)

text \<open>
  C3, as stated, fails: in the fresh session, the second snapshot (phase testing,
  finding \<open>f1\<close>) gives the phase notification only. Detection of new findings is skipped
  because the seen set left by the first snapshot is empty; \<open>f1\<close> gets no notification
  and no highlight.
\<close>

theorem first_finding_counterexample:
  "seenFindingIds started = [] \<and> seenFindingIds first = []
   \<and> notifications first (snap ''running'' ''testing'' [''f1'']) = [(''Phase: testing'', ''info'')]
   \<and> findingToasts (seenFindingIds first) (snap ''running'' ''testing'' [''f1'']) = []
   \<and> toasts second
       = toasts first
           @ [\<lparr>t_id = ''n'', t_message = ''Phase: testing'', t_severity = ''info'', t_timestamp = 0\<rparr>]
   \<and> newFindingIds second = []"
  by (simp add: second_def first_def session_defs)

text \<open>
  C3, amended. In a fresh session whose first poll returns status running, phase recon
  and no findings, a second poll returning status running, phase testing and the single
  finding id \<open>f1\<close> produces exactly one notification, the phase transition, and no
  new-finding notification or highlight; \<open>f1\<close> is recorded as seen. Detection of new
  findings is skipped whenever the seen set held before the snapshot is empty.
\<close>

theorem first_finding_not_notified:
  assumes "agentId st0 = None" and "trim (target st0) \<noteq> []"
    and "promptContent st0 = Some prompt" and "prompt \<noteq> []" and "aid \<noteq> []"
    and "s_status s1 = ''running''" and "s_phase s1 = Some ''recon''" and "findingsOf s1 = []"
    and "s_status s2 = ''running''" and "s_phase s2 = Some ''testing''"
    and "map f_id (findingsOf s2) = [''f1'']"
  shows
    "(let st = startSession (Inr aid) stamp now st0;
          st1 = pollCycle k1 (Resolved s1) l1 st;
          st2 = pollCycle k2 (Resolved s2) l2 st1
      in notifications st s1 = []
         \<and> toasts st1 = toasts st
         \<and> seenFindingIds st1 = []
         \<and> notifications st1 s2 = [(''Phase: testing'', ''info'')]
         \<and> toasts st2 = pushToast (fst (k2 0), snd (k2 0), ''Phase: testing'', ''info'') (toasts st)
         \<and> newFindingIds st2 = newFindingIds st
         \<and> seenFindingIds st2 = [''f1''])
     \<and> detectedIds [] s = []"
proof -
  let ?st = "startSession (Inr aid) stamp now st0"
  let ?st1 = "pollCycle k1 (Resolved s1) l1 ?st"
  let ?st2 = "pollCycle k2 (Resolved s2) l2 ?st1"
  note fresh = startSession_fresh [OF assms(1-5), of stamp now]
  from fresh(2) obtain tm where armed: "pollTimer ?st = Some tm"
    by auto
  note p1 = pollCycle_Resolved [OF armed, of k1 s1 l1]
  have ids1: "currentIds s1 = []"
    using assms(8) by (simp add: currentIds_def)
  have n1: "notifications ?st s1 = []"
    using fresh assms(6,7)
    by (simp add: notifications_def phaseToast_def statusToast_def findingToasts_def
        detectedIds_def)
  have t1: "toasts ?st1 = toasts ?st"
    using p1(4) n1 by (simp add: stamped_def)
  have seen1: "seenFindingIds ?st1 = []"
    using p1(1) ids1 by simp
  have a1: "agentId ?st1 = Some aid"
    using fresh(1) by (simp add: pollCycle_agentId)
  have "pollTimer ?st1 \<noteq> None"
    using pollCycle_armed [OF armed fresh(1) assms(5)] .
  then obtain tm1 where armed1: "pollTimer ?st1 = Some tm1"
    by auto
  note p2 = pollCycle_Resolved [OF armed1, of k2 s2 l2]
  have n2: "notifications ?st1 s2 = [(''Phase: testing'', ''info'')]"
    using p1(2,3) seen1 assms(6,7,9,10)
    by (simp add: notifications_def phaseToast_def statusToast_def findingToasts_def
        detectedIds_def)
  have t2: "toasts ?st2 = pushToast (fst (k2 0), snd (k2 0), ''Phase: testing'', ''info'') (toasts ?st)"
    using p2(4) n2 t1 by (simp add: stamped_def enumerate_eq_zip)
  have h2: "newFindingIds ?st2 = newFindingIds ?st"
    using p2(5) p1(5) seen1 fresh(3) by (simp add: detectedIds_def)
  have s2: "seenFindingIds ?st2 = [''f1'']"
    using p2(1) assms(11) by (simp add: currentIds_def)
  from n1 t1 seen1 n2 t2 h2 s2 show ?thesis
    by (simp add: Let_def detectedIds_def)
qed

theorem first_finding_not_notified_witness:
  "notifications started (snap ''running'' ''recon'' []) = []
   \<and> toasts first = toasts started
   \<and> notifications first (snap ''running'' ''testing'' [''f1'']) = [(''Phase: testing'', ''info'')]
   \<and> toasts second = pushToast (''n'', 0, ''Phase: testing'', ''info'') (toasts started)
   \<and> newFindingIds second = newFindingIds started
   \<and> seenFindingIds second = [''f1'']"
proof -
  have h: "agentId form0 = None" "trim (target form0) \<noteq> []" "promptContent form0 = Some ''p''"
      "''p'' \<noteq> []" "''a1'' \<noteq> []"
    by (simp_all add: form0_def initial_def trim_def isWhiteSpace_def)
  have s1: "s_status (snap ''running'' ''recon'' []) = ''running''"
      "s_phase (snap ''running'' ''recon'' []) = Some ''recon''"
      "findingsOf (snap ''running'' ''recon'' []) = []"
    by (simp_all add: snap_def findingsOf_def)
  have s2: "s_status (snap ''running'' ''testing'' [''f1'']) = ''running''"
      "s_phase (snap ''running'' ''testing'' [''f1'']) = Some ''testing''"
      "map f_id (findingsOf (snap ''running'' ''testing'' [''f1''])) = [''f1'']"
    by (simp_all add: snap_def findingsOf_def finding_def)
  from first_finding_not_notified [OF h s1 s2, of "(''s'', 0)" 0 stamp0 Rejected stamp0 Rejected]
  show ?thesis
    by (simp add: Let_def second_def first_def started_def stamp0_def)
qed

section \<open>The seen set over a session\<close>

lemma reported_fresh:
  "neverWithdrawn stamp ss st \<Longrightarrow>
     distinct (reported stamp ss st) \<and> set (reported stamp ss st) \<inter> set (seenFindingIds st) = {}"
proof (induction ss arbitrary: st)
  case Nil
  show ?case by simp
next
  case (Cons cs ss)
  obtain c s where cs: "cs = (c, s)"
    by (cases cs)
  let ?st' = "pollStatus c stamp (Resolved s) st"
  from Cons.prems have sub: "set (seenFindingIds st) \<subseteq> set (currentIds s)"
    and nw: "neverWithdrawn stamp ss ?st'"
    by (simp_all add: cs)
  from Cons.IH [OF nw] have d: "distinct (reported stamp ss ?st')"
    and dis: "set (reported stamp ss ?st') \<inter> set (currentIds s) = {}"
    by (simp_all add: pollStatus_seen)
  have hd: "set (detectedIds (seenFindingIds st) s) \<subseteq> set (currentIds s) - set (seenFindingIds st)"
    by (rule set_detectedIds)
  have "distinct (detectedIds (seenFindingIds st) s @ reported stamp ss ?st')"
    using d dis hd distinct_detectedIds [of "seenFindingIds st" s] by auto
  moreover have "set (detectedIds (seenFindingIds st) s @ reported stamp ss ?st')
      \<inter> set (seenFindingIds st) = {}"
    using dis hd sub by auto
  ultimately show ?case by (simp add: cs)
qed

lemma seen_grows:
  "neverWithdrawn stamp ss st \<Longrightarrow> set (seenFindingIds st) \<subseteq> set (seenFindingIds (polls stamp ss st))"
proof (induction ss arbitrary: st)
  case Nil
  show ?case by simp
next
  case (Cons cs ss)
  obtain c s where cs: "cs = (c, s)"
    by (cases cs)
  let ?st' = "pollStatus c stamp (Resolved s) st"
  from Cons.prems have sub: "set (seenFindingIds st) \<subseteq> set (currentIds s)"
    and nw: "neverWithdrawn stamp ss ?st'"
    by (simp_all add: cs)
  from Cons.IH [OF nw] sub show ?case
    by (auto simp: cs pollStatus_seen)
qed

text \<open>
  C1, as stated, fails: the seen set is replaced by the finding ids of the latest
  snapshot. When \<open>f1\<close> is reported as new, then missing from a snapshot, then present
  again, the seen set shrinks from two identifiers to one, and \<open>f1\<close> is reported as new
  (highlight and toast) a second time.
\<close>

theorem seen_set_counterexample:
  "seenFindingIds seen1 = [''f0'']
   \<and> newFindingIds seen2 = [''f1''] \<and> seenFindingIds seen2 = [''f0'', ''f1'']
   \<and> seenFindingIds seen3 = [''f0'']
   \<and> length (seenFindingIds seen3) < length (seenFindingIds seen2)
   \<and> detectedIds (seenFindingIds seen3) (snap ''running'' ''testing'' [''f0'', ''f1'']) = [''f1'']
   \<and> toasts seen4
       = toasts seen3
           @ [\<lparr>t_id = ''n'', t_message = ''HIGH: f1'', t_severity = ''high'', t_timestamp = 0\<rparr>]"
  by (simp add: seen4_def seen3_def seen2_def seen1_def session_defs)

text \<open>
  C1, amended. After every successfully fetched snapshot the seen set is the set of
  finding ids of that snapshot (the latest snapshot's set, not an accumulator); a failed
  fetch leaves it unchanged. Over every sequence of successfully fetched snapshots in
  which no snapshot lacks an identifier of the seen set held before it (no finding is
  withdrawn), the seen set never loses an identifier, so its size never decreases, and
  no identifier is reported as new more than once, nor one that was seen at the start.
\<close>

theorem seen_set_is_latest_snapshot:
  "seenFindingIds (pollStatus c stamp (Resolved s) st) = currentIds s
   \<and> seenFindingIds (pollStatus c stamp Rejected st) = seenFindingIds st
   \<and> (neverWithdrawn stamp ss st \<longrightarrow>
        set (seenFindingIds st) \<subseteq> set (seenFindingIds (polls stamp ss st))
        \<and> card (set (seenFindingIds st)) \<le> card (set (seenFindingIds (polls stamp ss st)))
        \<and> distinct (reported stamp ss st)
        \<and> set (reported stamp ss st) \<inter> set (seenFindingIds st) = {})"
proof -
  have a: "seenFindingIds (pollStatus c stamp Rejected st) = seenFindingIds st"
    by (simp add: pollStatus_def)
  have b: "neverWithdrawn stamp ss st \<longrightarrow>
      card (set (seenFindingIds st)) \<le> card (set (seenFindingIds (polls stamp ss st)))"
    using seen_grows [of stamp ss st] by (simp add: card_mono)
  from a b pollStatus_seen [of c stamp s st] seen_grows [of stamp ss st]
    reported_fresh [of stamp ss st]
  show ?thesis by blast
qed

theorem seen_set_is_latest_snapshot_witness:
  "neverWithdrawn stamp0
     [(firstPoll, snap ''running'' ''testing'' [''f0'']),
      (firstPoll, snap ''running'' ''testing'' [''f0'', ''f1'']),
      (firstPoll, snap ''completed'' ''testing'' [''f0'', ''f1''])] started
   \<and> distinct (reported stamp0
        [(firstPoll, snap ''running'' ''testing'' [''f0'']),
      (firstPoll, snap ''running'' ''testing'' [''f0'', ''f1'']),
         (firstPoll, snap ''completed'' ''testing'' [''f0'', ''f1''])] started)
   \<and> reported stamp0
        [(firstPoll, snap ''running'' ''testing'' [''f0'']),
      (firstPoll, snap ''running'' ''testing'' [''f0'', ''f1'']),
         (firstPoll, snap ''completed'' ''testing'' [''f0'', ''f1''])] started = [''f1'']"
proof -
  have nw: "neverWithdrawn stamp0
     [(firstPoll, snap ''running'' ''testing'' [''f0'']),
      (firstPoll, snap ''running'' ''testing'' [''f0'', ''f1'']),
      (firstPoll, snap ''completed'' ''testing'' [''f0'', ''f1''])] started"
    by (simp add: firstPoll_def session_defs)
  have rp: "reported stamp0
        [(firstPoll, snap ''running'' ''testing'' [''f0'']),
      (firstPoll, snap ''running'' ''testing'' [''f0'', ''f1'']),
         (firstPoll, snap ''completed'' ''testing'' [''f0'', ''f1''])] started = [''f1'']"
    by (simp add: session_defs)
  from nw rp seen_set_is_latest_snapshot [of firstPoll stamp0 "snap ''running'' ''testing'' [''f0'']" started
      "[(firstPoll, snap ''running'' ''testing'' [''f0'']),
      (firstPoll, snap ''running'' ''testing'' [''f0'', ''f1'']),
        (firstPoll, snap ''completed'' ''testing'' [''f0'', ''f1''])]"]
  show ?thesis by blast
qed

end
